theory Spec2Isabelle
  imports Complex_Main "HOL-Library.Sublist"
begin

section \<open>Assessment engine: tiers, thresholds and policy tables\<close>

text \<open>
  The engine is written in TypeScript. Its numbers are modelled as exact rationals
  (\<open>rat\<close>) where the source divides, and as integers where the source only counts,
  adds or compares whole numbers (attempt counts, error counts, milliseconds since the
  epoch). \<open>Math.round\<close> rounds to the nearest integer with ties going up, that is
  \<open>\<lfloor>x + 1/2\<rfloor>\<close>.
\<close>

datatype AssessmentType = lesson_check | module_exam | term_exam | cumulative_review

datatype GradeLetter = GradeA | GradeB | GradeC | GradeD | GradeF

definition Math_round :: "rat \<Rightarrow> int" where
  "Math_round x = \<lfloor>x + 1 / 2\<rfloor>"

definition PASS_THRESHOLD :: rat where
  "PASS_THRESHOLD = 80"

fun ASSESSMENT_THRESHOLDS :: "AssessmentType \<Rightarrow> rat" where
  "ASSESSMENT_THRESHOLDS lesson_check = 80"
| "ASSESSMENT_THRESHOLDS module_exam = 75"
| "ASSESSMENT_THRESHOLDS term_exam = 70"
| "ASSESSMENT_THRESHOLDS cumulative_review = 70"

fun COOLDOWN_HOURS :: "AssessmentType \<Rightarrow> int" where
  "COOLDOWN_HOURS lesson_check = 0"
| "COOLDOWN_HOURS module_exam = 24"
| "COOLDOWN_HOURS term_exam = 48"
| "COOLDOWN_HOURS cumulative_review = 24"

record AttemptLimits =
  limit_count :: nat
  period_days :: int

fun MAX_ATTEMPTS :: "AssessmentType \<Rightarrow> AttemptLimits" where
  "MAX_ATTEMPTS lesson_check = \<lparr>limit_count = 3, period_days = 1\<rparr>"
| "MAX_ATTEMPTS module_exam = \<lparr>limit_count = 3, period_days = 7\<rparr>"
| "MAX_ATTEMPTS term_exam = \<lparr>limit_count = 2, period_days = 14\<rparr>"
| "MAX_ATTEMPTS cumulative_review = \<lparr>limit_count = 3, period_days = 7\<rparr>"

subsection \<open>Grade calculation\<close>

definition calculateGrade :: "rat \<Rightarrow> GradeLetter" where
  "calculateGrade score =
     (if score \<ge> 90 then GradeA
      else if score \<ge> 80 then GradeB
      else if score \<ge> 70 then GradeC
      else if score \<ge> 60 then GradeD
      else GradeF)"

definition getPassThreshold :: "AssessmentType \<Rightarrow> rat" where
  "getPassThreshold type = ASSESSMENT_THRESHOLDS type"

subsection \<open>GPA computation\<close>





section \<open>Grading a submission\<close>

record Question =
  q_id :: string
  q_concept_tag :: "string option"

record Answer =
  a_id :: string
  a_explanation :: "string option"

record SubmittedAnswer =
  sa_question_id :: string
  sa_answer_id :: string

record Submission =
  sub_answers :: "SubmittedAnswer list"

record QuestionFeedback =
  fb_question_id :: string
  fb_correct :: bool
  fb_selected_answer_id :: string
  fb_correct_answer_id :: string
  fb_explanation :: "string option"
  fb_concept_tag :: "string option"

record QuizResult =
  qr_score :: rat
  qr_passed :: bool
  qr_total_questions :: nat
  qr_correct_count :: nat
  qr_feedback :: "QuestionFeedback list"

text \<open>
  The \<open>for\<close> loop of \<open>evaluateQuiz\<close> over the questions, on the pair
  (\<open>correctCount\<close>, \<open>feedback\<close>). \<open>submission.answers.find\<close> is \<open>find\<close>; the two
  \<open>Map\<close> lookups are partial functions; a question without a correct answer is
  left by \<open>continue\<close>; the empty string is the falsy selected id.
\<close>

fun evaluateQuiz_loop ::
  "Submission \<Rightarrow> (string \<rightharpoonup> Answer) \<Rightarrow> (string \<rightharpoonup> Answer) \<Rightarrow> Question list
   \<Rightarrow> nat \<times> QuestionFeedback list \<Rightarrow> nat \<times> QuestionFeedback list" where
  "evaluateQuiz_loop submission correctAnswers allAnswers [] (correctCount, feedback) =
     (correctCount, feedback)"
| "evaluateQuiz_loop submission correctAnswers allAnswers (question # questions)
     (correctCount, feedback) =
     (let userAnswer = find (\<lambda>a. sa_question_id a = q_id question) (sub_answers submission)
      in case correctAnswers (q_id question) of
           None \<Rightarrow>
             evaluateQuiz_loop submission correctAnswers allAnswers questions
               (correctCount, feedback)
         | Some correct \<Rightarrow>
            (let selectedAnswerId =
                   (case userAnswer of None \<Rightarrow> [] | Some a \<Rightarrow> sa_answer_id a);
                 isCorrect = (selectedAnswerId = a_id correct);
                 explanation =
                   (if \<not> isCorrect \<and> selectedAnswerId \<noteq> []
                    then (case allAnswers selectedAnswerId of
                            None \<Rightarrow> None
                          | Some selectedAnswer \<Rightarrow> a_explanation selectedAnswer)
                    else None)
             in evaluateQuiz_loop submission correctAnswers allAnswers questions
                  (if isCorrect then correctCount + 1 else correctCount,
                   feedback @
                   [\<lparr>fb_question_id = q_id question,
                     fb_correct = isCorrect,
                     fb_selected_answer_id = selectedAnswerId,
                     fb_correct_answer_id = a_id correct,
                     fb_explanation = explanation,
                     fb_concept_tag = q_concept_tag question\<rparr>])))"

definition evaluateQuiz ::
  "Submission \<Rightarrow> Question list \<Rightarrow> (string \<rightharpoonup> Answer) \<Rightarrow> (string \<rightharpoonup> Answer) \<Rightarrow> QuizResult"
  where
  "evaluateQuiz submission questions correctAnswers allAnswers =
     (let totalQuestions = length questions
      in case evaluateQuiz_loop submission correctAnswers allAnswers questions (0, []) of
           (correctCount, feedback) \<Rightarrow>
             (let score =
                    (if totalQuestions > 0
                     then of_int (Math_round
                            ((of_nat correctCount / of_nat totalQuestions) * 10000)) / 100
                     else 0)
              in \<lparr>qr_score = score,
                   qr_passed = (score \<ge> PASS_THRESHOLD),
                   qr_total_questions = totalQuestions,
                   qr_correct_count = correctCount,
                   qr_feedback = feedback\<rparr>))"

subsection \<open>Retry eligibility\<close>

text \<open>
  An attempt row. \<open>created_at\<close> is held as the number \<open>new Date(created_at).getTime()\<close>
  reads from it (milliseconds since the epoch); the result's \<open>nextRetryAt\<close> is held as
  the millisecond value that \<open>toISOString\<close> prints. \<open>Date.now()\<close> is the parameter
  \<open>now\<close>.
\<close>

record AssessmentAttempt =
  at_user_id :: string
  at_assessment_id :: string
  at_passed :: bool
  at_created_at :: int

record RetryEligibility =
  canRetry :: bool
  nextRetryAt :: "int option"

datatype error = TypeError

text \<open>
  \<open>xs.reduce(f, xs[0])\<close> is \<open>foldl f x xs\<close> for \<open>xs = x # _\<close>; on an empty array
  \<open>xs[0]\<close> is \<open>undefined\<close> and reading its \<open>created_at\<close> throws.
\<close>

definition checkRetryEligibility ::
  "int \<Rightarrow> AssessmentType \<Rightarrow> AssessmentAttempt list \<Rightarrow> error + RetryEligibility" where
  "checkRetryEligibility now assessmentType previousAttempts =
     (let limits = MAX_ATTEMPTS assessmentType;
          cooldownMs = COOLDOWN_HOURS assessmentType * 60 * 60 * 1000;
          periodStart = now - period_days limits * 24 * 60 * 60 * 1000;
          recentAttempts = filter (\<lambda>a. at_created_at a \<ge> periodStart) previousAttempts
      in if length recentAttempts \<ge> limit_count limits then
           (case recentAttempts of
              [] \<Rightarrow> Inl TypeError
            | first # _ \<Rightarrow>
               (let oldestInPeriod =
                      foldl (\<lambda>oldest a.
                               if at_created_at a < at_created_at oldest then a else oldest)
                            first recentAttempts;
                    periodEndMs =
                      at_created_at oldestInPeriod + period_days limits * 24 * 60 * 60 * 1000
                in Inr \<lparr>canRetry = False, nextRetryAt = Some periodEndMs\<rparr>))
         else if length previousAttempts > 0 \<and> cooldownMs > 0 then
           (case previousAttempts of
              [] \<Rightarrow> Inl TypeError
            | first # _ \<Rightarrow>
               (let mostRecent =
                      foldl (\<lambda>latest a.
                               if at_created_at a > at_created_at latest then a else latest)
                            first previousAttempts;
                    cooldownEnd = at_created_at mostRecent + cooldownMs
                in if now < cooldownEnd
                   then Inr \<lparr>canRetry = False, nextRetryAt = Some cooldownEnd\<rparr>
                   else Inr \<lparr>canRetry = True, nextRetryAt = None\<rparr>))
         else Inr \<lparr>canRetry = True, nextRetryAt = None\<rparr>)"

subsection \<open>Institutional assessments (tiers 2 to 4)\<close>

record AssessmentResult =
  ar_score :: rat
  ar_grade :: GradeLetter
  ar_passed :: bool
  ar_total_questions :: nat
  ar_correct_count :: nat
  ar_feedback :: "QuestionFeedback list"
  ar_weak_concepts :: "string list"
  ar_can_retry :: bool
  ar_next_retry_available_at :: "int option"

text \<open>A JavaScript \<open>Set\<close> keeps its members in insertion order, each once.\<close>

definition Set_add :: "'a list \<Rightarrow> 'a \<Rightarrow> 'a list" where
  "Set_add s x = (if x \<in> set s then s else s @ [x])"

definition new_Set :: "'a list \<Rightarrow> 'a list" where
  "new_Set xs = foldl Set_add [] xs"

text \<open>A string or null is truthy when it is a non-empty string.\<close>

fun truthy :: "string option \<Rightarrow> bool" where
  "truthy None = False"
| "truthy (Some s) = (s \<noteq> [])"

fun evaluateAssessment_loop ::
  "Submission \<Rightarrow> (string \<rightharpoonup> Answer) \<Rightarrow> (string \<rightharpoonup> Answer) \<Rightarrow> Question list
   \<Rightarrow> nat \<times> QuestionFeedback list \<times> string list
   \<Rightarrow> nat \<times> QuestionFeedback list \<times> string list" where
  "evaluateAssessment_loop submission correctAnswers allAnswers []
     (correctCount, feedback, incorrectConcepts) =
     (correctCount, feedback, incorrectConcepts)"
| "evaluateAssessment_loop submission correctAnswers allAnswers (question # questions)
     (correctCount, feedback, incorrectConcepts) =
     (let userAnswer = find (\<lambda>a. sa_question_id a = q_id question) (sub_answers submission)
      in case correctAnswers (q_id question) of
           None \<Rightarrow>
             evaluateAssessment_loop submission correctAnswers allAnswers questions
               (correctCount, feedback, incorrectConcepts)
         | Some correct \<Rightarrow>
            (let selectedAnswerId =
                   (case userAnswer of None \<Rightarrow> [] | Some a \<Rightarrow> sa_answer_id a);
                 isCorrect = (selectedAnswerId = a_id correct);
                 explanation =
                   (if \<not> isCorrect \<and> selectedAnswerId \<noteq> []
                    then (case allAnswers selectedAnswerId of
                            None \<Rightarrow> None
                          | Some selectedAnswer \<Rightarrow> a_explanation selectedAnswer)
                    else None)
             in evaluateAssessment_loop submission correctAnswers allAnswers questions
                  (if isCorrect then correctCount + 1 else correctCount,
                   feedback @
                   [\<lparr>fb_question_id = q_id question,
                     fb_correct = isCorrect,
                     fb_selected_answer_id = selectedAnswerId,
                     fb_correct_answer_id = a_id correct,
                     fb_explanation = explanation,
                     fb_concept_tag = q_concept_tag question\<rparr>],
                   if isCorrect then incorrectConcepts
                   else (case q_concept_tag question of
                           None \<Rightarrow> incorrectConcepts
                         | Some tag \<Rightarrow>
                             if tag \<noteq> [] then Set_add incorrectConcepts tag
                             else incorrectConcepts))))"

definition evaluateAssessment ::
  "int \<Rightarrow> Submission \<Rightarrow> AssessmentType \<Rightarrow> Question list \<Rightarrow> (string \<rightharpoonup> Answer)
   \<Rightarrow> (string \<rightharpoonup> Answer) \<Rightarrow> AssessmentAttempt list \<Rightarrow> error + AssessmentResult" where
  "evaluateAssessment now submission assessmentType questions correctAnswers allAnswers
     previousAttempts =
     (let totalQuestions = length questions
      in case evaluateAssessment_loop submission correctAnswers allAnswers questions
                (0, [], []) of
           (correctCount, feedback, incorrectConcepts) \<Rightarrow>
             (let score =
                    (if totalQuestions > 0
                     then of_int (Math_round
                            ((of_nat correctCount / of_nat totalQuestions) * 10000)) / 100
                     else 0);
                  threshold = getPassThreshold assessmentType;
                  grade = calculateGrade score;
                  passed = (score \<ge> threshold)
              in case checkRetryEligibility now assessmentType previousAttempts of
                   Inl e \<Rightarrow> Inl e
                 | Inr r \<Rightarrow>
                     Inr \<lparr>ar_score = score,
                          ar_grade = grade,
                          ar_passed = passed,
                          ar_total_questions = totalQuestions,
                          ar_correct_count = correctCount,
                          ar_feedback = feedback,
                          ar_weak_concepts = incorrectConcepts,
                          ar_can_retry = (\<not> passed \<and> canRetry r),
                          ar_next_retry_available_at = nextRetryAt r\<rparr>))"

subsection \<open>Concept extraction\<close>

record IncorrectConcept =
  ic_concept_tag :: string
  ic_question_id :: string

definition extractIncorrectConcepts :: "QuestionFeedback list \<Rightarrow> IncorrectConcept list" where
  "extractIncorrectConcepts feedback =
     map (\<lambda>f. \<lparr>ic_concept_tag = the (fb_concept_tag f), ic_question_id = fb_question_id f\<rparr>)
       (filter (\<lambda>f. \<not> fb_correct f \<and> truthy (fb_concept_tag f)) feedback)"

section \<open>Weak area tracking\<close>

text \<open>
  The \<open>weak_areas\<close> table is a list of rows. The \<open>uuid\<close> primary key is held as a
  number, so that the column default (a fresh identifier) can be computed. The schema
  declares \<open>id\<close> a primary key and \<open>(user_id, concept_tag)\<close> unique.
\<close>

record WeakArea =
  wa_id :: nat
  wa_user_id :: string
  wa_concept_tag :: string
  wa_error_count :: int
  wa_last_tested_at :: int

text \<open>
  \<open>.single()\<close> gives the row when the query has exactly one, and null data (with an
  error the callers here never read) when it has none or several.
\<close>

fun single :: "'a list \<Rightarrow> 'a option" where
  "single [x] = Some x"
| "single _ = None"

definition fresh_id :: "WeakArea list \<Rightarrow> nat" where
  "fresh_id tbl = Suc (foldl max 0 (map wa_id tbl))"

text \<open>\<open>update({error_count, last_tested_at}).eq("id", id)\<close>\<close>

definition update_weak_area :: "nat \<Rightarrow> int \<Rightarrow> int \<Rightarrow> WeakArea list \<Rightarrow> WeakArea list" where
  "update_weak_area i ec ts tbl =
     map (\<lambda>w. if wa_id w = i then w\<lparr>wa_error_count := ec, wa_last_tested_at := ts\<rparr> else w) tbl"

text \<open>
  \<open>insert({user_id, concept_tag, error_count, last_tested_at})\<close>: the database refuses
  a second row for the same user and tag; the caller does not read the outcome.
\<close>

definition insert_weak_area ::
  "string \<Rightarrow> string \<Rightarrow> int \<Rightarrow> int \<Rightarrow> WeakArea list \<Rightarrow> WeakArea list" where
  "insert_weak_area u tag ec ts tbl =
     (if list_ex (\<lambda>w. wa_user_id w = u \<and> wa_concept_tag w = tag) tbl then tbl
      else tbl @ [\<lparr>wa_id = fresh_id tbl, wa_user_id = u, wa_concept_tag = tag,
                   wa_error_count = ec, wa_last_tested_at = ts\<rparr>])"

text \<open>
  The \<open>for\<close> loop of \<open>updateWeakAreas\<close> over the deduplicated tags, on the table.
  \<open>clock tag\<close> is what \<open>new Date()\<close> reads when the row of \<open>tag\<close> is written.
\<close>

fun updateWeakAreas_loop ::
  "(string \<Rightarrow> int) \<Rightarrow> string \<Rightarrow> IncorrectConcept list \<Rightarrow> string list
   \<Rightarrow> WeakArea list \<Rightarrow> WeakArea list" where
  "updateWeakAreas_loop clock userId incorrectConcepts [] tbl = tbl"
| "updateWeakAreas_loop clock userId incorrectConcepts (tag # uniqueTags) tbl =
     (let errorCount = int (length (filter (\<lambda>c. ic_concept_tag c = tag) incorrectConcepts));
          existing = single (filter (\<lambda>w. wa_user_id w = userId \<and> wa_concept_tag w = tag) tbl)
      in case existing of
           Some e \<Rightarrow>
             updateWeakAreas_loop clock userId incorrectConcepts uniqueTags
               (update_weak_area (wa_id e) (wa_error_count e + errorCount) (clock tag) tbl)
         | None \<Rightarrow>
             updateWeakAreas_loop clock userId incorrectConcepts uniqueTags
               (insert_weak_area userId tag errorCount (clock tag) tbl))"

definition updateWeakAreas ::
  "(string \<Rightarrow> int) \<Rightarrow> string \<Rightarrow> IncorrectConcept list \<Rightarrow> WeakArea list \<Rightarrow> WeakArea list"
  where
  "updateWeakAreas clock userId incorrectConcepts tbl =
     (if length incorrectConcepts = 0 then tbl
      else let uniqueTags = new_Set (map ic_concept_tag incorrectConcepts)
           in updateWeakAreas_loop clock userId incorrectConcepts uniqueTags tbl)"

definition REVIEW_THRESHOLD :: int where
  "REVIEW_THRESHOLD = 3"

definition getRequiredReviews :: "WeakArea list \<Rightarrow> string \<Rightarrow> string list" where
  "getRequiredReviews tbl userId =
     map wa_concept_tag
       (filter (\<lambda>w. wa_user_id w = userId \<and> wa_error_count w \<ge> REVIEW_THRESHOLD) tbl)"

subsection \<open>The dashboard's review list\<close>

text \<open>
  \<open>DashboardView\<close> filters its \<open>weakAreas\<close> property into \<open>requiredReviews\<close> and
  renders one list item per member: the concept tag, followed by the mark
  ``blocks progression'' under the item's own condition.
\<close>

record ReviewItem =
  ri_concept_tag :: string
  ri_blocks_progression :: bool

definition requiredReviews :: "WeakArea list \<Rightarrow> WeakArea list" where
  "requiredReviews weakAreas = filter (\<lambda>w. wa_error_count w \<ge> 3) weakAreas"

definition DashboardView_reviews :: "WeakArea list \<Rightarrow> ReviewItem list" where
  "DashboardView_reviews weakAreas =
     map (\<lambda>area. \<lparr>ri_concept_tag = wa_concept_tag area,
                  ri_blocks_progression = (wa_error_count area \<ge> 5)\<rparr>)
       (requiredReviews weakAreas)"

section \<open>Progression gates for terms and years\<close>

text \<open>
  The tables the two gates read, as lists of rows with the columns the queries name.
  Every query is taken to reach the database; a \<open>select\<close> with \<open>eq\<close> filters is
  \<open>filter\<close>, \<open>.limit(1)\<close> is \<open>take 1\<close>.
\<close>

record Term =
  tm_id :: string
  tm_order :: int
  tm_year_id :: string

record Year =
  yr_id :: string
  yr_order :: int

record Assessment =
  as_id :: string
  as_type :: AssessmentType
  as_term_id :: "string option"
  as_year_id :: "string option"

record TranscriptEntry =
  te_user_id :: string
  te_year_id :: "string option"
  te_assessment_type :: AssessmentType
  te_score :: rat
  te_passed :: bool

record Database =
  terms :: "Term list"
  years :: "Year list"
  assessments :: "Assessment list"
  assessment_attempts :: "AssessmentAttempt list"
  weak_areas :: "WeakArea list"
  transcript_entries :: "TranscriptEntry list"

record AccessResult =
  accessible :: bool
  reason :: "string option"

text \<open>\<open>Array.prototype.join\<close>\<close>

fun join :: "string \<Rightarrow> string list \<Rightarrow> string" where
  "join sep [] = []"
| "join sep [x] = x"
| "join sep (x # y # ys) = x @ sep @ join sep (y # ys)"

text \<open>
  The text a template literal gives for a whole number: the decimal digits, least
  significant first into an accumulator, after a minus sign for a negative number.
\<close>

fun decimal_digits :: "nat \<Rightarrow> string \<Rightarrow> string" where
  "decimal_digits n acc =
     (let acc' = (''0123456789'' ! (n mod 10)) # acc
      in if n div 10 = 0 then acc' else decimal_digits (n div 10) acc')"

definition number_text :: "int \<Rightarrow> string" where
  "number_text k =
     (if k < 0 then CHR ''-'' # decimal_digits (nat (- k)) [] else decimal_digits (nat k) [])"

text \<open>The two queries for an exam of a term and for a passing attempt at an assessment.\<close>

definition select_term_exam :: "Database \<Rightarrow> string \<Rightarrow> Assessment option" where
  "select_term_exam db termId =
     single (filter (\<lambda>a. as_term_id a = Some termId \<and> as_type a = term_exam) (assessments db))"

definition select_cumulative_review :: "Database \<Rightarrow> string \<Rightarrow> Assessment option" where
  "select_cumulative_review db yearId =
     single (filter (\<lambda>a. as_year_id a = Some yearId \<and> as_type a = cumulative_review)
               (assessments db))"

definition select_passing_attempt ::
  "Database \<Rightarrow> string \<Rightarrow> string \<Rightarrow> AssessmentAttempt option" where
  "select_passing_attempt db userId assessmentId =
     single (take 1
       (filter (\<lambda>t. at_user_id t = userId \<and> at_assessment_id t = assessmentId \<and> at_passed t)
          (assessment_attempts db)))"

definition canAccessTerm :: "Database \<Rightarrow> string \<Rightarrow> string \<Rightarrow> AccessResult" where
  "canAccessTerm db userId termId =
     (case single (filter (\<lambda>t. tm_id t = termId) (terms db)) of
        None \<Rightarrow> \<lparr>accessible = False, reason = Some ''Term not found.''\<rparr>
      | Some term \<Rightarrow>
          if tm_order term = 1 then \<lparr>accessible = True, reason = None\<rparr>
          else
            (case single (filter (\<lambda>t. tm_order t = tm_order term - 1) (terms db)) of
               None \<Rightarrow> \<lparr>accessible = True, reason = None\<rparr>
             | Some prevTerm \<Rightarrow>
                 if (case select_term_exam db (tm_id prevTerm) of
                       None \<Rightarrow> False
                     | Some termExam \<Rightarrow>
                         select_passing_attempt db userId (as_id termExam) = None)
                 then \<lparr>accessible = False,
                       reason = Some ''You must pass the previous term's final examination before proceeding to this term.''\<rparr>
                 else
                   (let weakAreas = filter (\<lambda>w. wa_user_id w = userId) (weak_areas db);
                        blockingAreas = filter (\<lambda>w. wa_error_count w \<ge> 3) weakAreas
                    in if length blockingAreas > 0 then
                         (let concepts = join '', '' (map wa_concept_tag blockingAreas)
                          in \<lparr>accessible = False,
                               reason = Some (''The following concepts require targeted review before progression: '' @ concepts @ ''.'')\<rparr>)
                       else \<lparr>accessible = True, reason = None\<rparr>)))"

text \<open>
  The loop of \<open>canAccessYear\<close> over the terms of the previous year: it returns from
  the function at the first term whose exam has no passing attempt (\<open>Some\<close> of the
  result returned), and falls through otherwise (\<open>None\<close>).
\<close>

fun canAccessYear_terms :: "Database \<Rightarrow> string \<Rightarrow> Term list \<Rightarrow> AccessResult option" where
  "canAccessYear_terms db userId [] = None"
| "canAccessYear_terms db userId (prevTerm # prevTerms) =
     (case select_term_exam db (tm_id prevTerm) of
        None \<Rightarrow> canAccessYear_terms db userId prevTerms
      | Some termExam \<Rightarrow>
          (case select_passing_attempt db userId (as_id termExam) of
             None \<Rightarrow>
               Some \<lparr>accessible = False,
                     reason = Some ''All term examinations in the previous year must be passed before advancing.''\<rparr>
           | Some _ \<Rightarrow> canAccessYear_terms db userId prevTerms))"

text \<open>The loop over the transcript entries, on (\<open>weightedSum\<close>, \<open>totalWeight\<close>).\<close>

fun canAccessYear_gpa :: "TranscriptEntry list \<Rightarrow> rat \<times> rat \<Rightarrow> rat \<times> rat" where
  "canAccessYear_gpa [] (weightedSum, totalWeight) = (weightedSum, totalWeight)"
| "canAccessYear_gpa (entry # entries) (weightedSum, totalWeight) =
     (let weight = (if te_assessment_type entry = term_exam then 2 else 1)
      in canAccessYear_gpa entries (weightedSum + te_score entry * weight, totalWeight + weight))"

definition canAccessYear :: "Database \<Rightarrow> string \<Rightarrow> string \<Rightarrow> AccessResult" where
  "canAccessYear db userId yearId =
     (case single (filter (\<lambda>y. yr_id y = yearId) (years db)) of
        None \<Rightarrow> \<lparr>accessible = False, reason = Some ''Year not found.''\<rparr>
      | Some year \<Rightarrow>
          if yr_order year = 1 then \<lparr>accessible = True, reason = None\<rparr>
          else
            (case single (filter (\<lambda>y. yr_order y = yr_order year - 1) (years db)) of
               None \<Rightarrow> \<lparr>accessible = True, reason = None\<rparr>
             | Some prevYear \<Rightarrow>
                (let prevTerms = filter (\<lambda>t. tm_year_id t = yr_id prevYear) (terms db)
                 in if length prevTerms = 0 then \<lparr>accessible = True, reason = None\<rparr>
                    else
                      (case canAccessYear_terms db userId prevTerms of
                         Some denied \<Rightarrow> denied
                       | None \<Rightarrow>
                           if (case select_cumulative_review db (yr_id prevYear) of
                                 None \<Rightarrow> False
                               | Some cumulativeReview \<Rightarrow>
                                   select_passing_attempt db userId (as_id cumulativeReview)
                                     = None)
                           then \<lparr>accessible = False,
                                 reason = Some ''The cumulative review for the previous year must be passed before advancing.''\<rparr>
                           else
                             (let transcriptEntries =
                                    filter (\<lambda>e. te_user_id e = userId
                                              \<and> te_year_id e = Some (yr_id prevYear)
                                              \<and> te_passed e
                                              \<and> te_assessment_type e \<in> {module_exam, term_exam})
                                      (transcript_entries db)
                              in if length transcriptEntries > 0 then
                                   (case canAccessYear_gpa transcriptEntries (0, 0) of
                                      (weightedSum, totalWeight) \<Rightarrow>
                                        (let yearGPA = (if totalWeight > 0
                                                        then weightedSum / totalWeight else 0)
                                         in if yearGPA < 70 then
                                              \<lparr>accessible = False,
                                               reason = Some (''Your GPA for the previous year ('' @ number_text (Math_round yearGPA) @ '') is below the required minimum of 70.'')\<rparr>
                                            else \<lparr>accessible = True, reason = None\<rparr>))
                                 else \<lparr>accessible = True, reason = None\<rparr>)))))"

section \<open>Rounding to two decimals, as the specification words it\<close>

text \<open>
  The specification speaks of a value ``rounded to 2 decimals'': the nearest multiple
  of one hundredth. The source computes \<open>Math.round(x * 100) / 100\<close> (and, for scores,
  \<open>Math.round(q * 10000) / 100\<close> with \<open>x = q * 100\<close>).
\<close>

definition round_2dp :: "rat \<Rightarrow> rat" where
  "round_2dp x = of_int (round (x * 100)) / 100"





section \<open>Retry eligibility, as the specification words it\<close>

text \<open>
  The tier policy of the specification: maximum attempts \<open>N\<close> per \<open>P\<close> days and
  cooldown of \<open>C\<close> hours; and its algorithm, in milliseconds.
\<close>

fun spec_policy :: "AssessmentType \<Rightarrow> nat \<times> int \<times> int" where
  "spec_policy lesson_check = (3, 1, 0)"
| "spec_policy module_exam = (3, 7, 24)"
| "spec_policy term_exam = (2, 14, 48)"
| "spec_policy cumulative_review = (3, 7, 24)"

definition ms_of_days :: "int \<Rightarrow> int" where
  "ms_of_days d = d * 86400000"

definition ms_of_hours :: "int \<Rightarrow> int" where
  "ms_of_hours h = h * 3600000"

definition spec_retry :: "int \<Rightarrow> AssessmentType \<Rightarrow> AssessmentAttempt list \<Rightarrow> RetryEligibility"
  where
  "spec_retry now tier attempts =
     (case spec_policy tier of
        (N, P, C) \<Rightarrow>
          (let recent = filter (\<lambda>a. at_created_at a \<ge> now - ms_of_days P) attempts
           in if length recent \<ge> N then
                \<lparr>canRetry = False,
                 nextRetryAt = Some (Min (at_created_at ` set recent) + ms_of_days P)\<rparr>
              else if C > 0 \<and> attempts \<noteq> []
                      \<and> now < Max (at_created_at ` set attempts) + ms_of_hours C then
                \<lparr>canRetry = False,
                 nextRetryAt = Some (Max (at_created_at ` set attempts) + ms_of_hours C)\<rparr>
              else \<lparr>canRetry = True, nextRetryAt = None\<rparr>))"

section \<open>The weak-area ledger, as the specification words it\<close>

text \<open>
  The schema's constraints on the table: \<open>id\<close> is a primary key and
  \<open>(user_id, concept_tag)\<close> is unique. The ledger row of a user and a concept tag, and
  the number of misses of a tag in the list of one attempt.
\<close>

definition weak_areas_wf :: "WeakArea list \<Rightarrow> bool" where
  "weak_areas_wf tbl =
     (distinct (map wa_id tbl) \<and> distinct (map (\<lambda>w. (wa_user_id w, wa_concept_tag w)) tbl))"

definition ledger_row :: "WeakArea list \<Rightarrow> string \<Rightarrow> string \<Rightarrow> WeakArea option" where
  "ledger_row tbl u tag = find (\<lambda>w. wa_user_id w = u \<and> wa_concept_tag w = tag) tbl"

definition spec_miss_count :: "IncorrectConcept list \<Rightarrow> string \<Rightarrow> int" where
  "spec_miss_count misses tag = int (length (filter (\<lambda>c. ic_concept_tag c = tag) misses))"

text \<open>One pass of the loop of \<open>updateWeakAreas\<close>, for the proofs.\<close>

definition updateWeakAreas_step ::
  "(string \<Rightarrow> int) \<Rightarrow> string \<Rightarrow> IncorrectConcept list \<Rightarrow> string \<Rightarrow> WeakArea list
   \<Rightarrow> WeakArea list" where
  "updateWeakAreas_step clock userId incorrectConcepts tag tbl =
     (case single (filter (\<lambda>w. wa_user_id w = userId \<and> wa_concept_tag w = tag) tbl) of
        Some e \<Rightarrow>
          update_weak_area (wa_id e)
            (wa_error_count e + spec_miss_count incorrectConcepts tag) (clock tag) tbl
      | None \<Rightarrow>
          insert_weak_area userId tag (spec_miss_count incorrectConcepts tag) (clock tag) tbl)"

section \<open>The progression gates, as the specification words them\<close>

text \<open>
  A user has passed an assessment when one of the user's attempts at it is marked
  passed. The exam requirement of the term before \<open>t\<close> is met when that term exists
  and its exam, if it has one, is passed.
\<close>

definition spec_passed :: "Database \<Rightarrow> string \<Rightarrow> string \<Rightarrow> bool" where
  "spec_passed db userId assessmentId =
     list_ex (\<lambda>a. at_user_id a = userId \<and> at_assessment_id a = assessmentId \<and> at_passed a)
       (assessment_attempts db)"



text \<open>
  The conditions of the year gate in the specification: every term of the previous
  year that has a term exam has it passed; the cumulative review of the previous year,
  if defined, is passed; and the GPA of the previous year, the weighted average of the
  scores of the user's passed module-exam (weight 1) and term-exam (weight 2)
  transcript entries of that year, which is absent when there is no such entry.
\<close>

definition spec_term_exams_passed :: "Database \<Rightarrow> string \<Rightarrow> string \<Rightarrow> bool" where
  "spec_term_exams_passed db userId yearId =
     list_all
       (\<lambda>t. case select_term_exam db (tm_id t) of
               None \<Rightarrow> True
             | Some exam \<Rightarrow> spec_passed db userId (as_id exam))
       (filter (\<lambda>t. tm_year_id t = yearId) (terms db))"

definition spec_cumulative_review_passed :: "Database \<Rightarrow> string \<Rightarrow> string \<Rightarrow> bool" where
  "spec_cumulative_review_passed db userId yearId =
     (case select_cumulative_review db yearId of
        None \<Rightarrow> True
      | Some review \<Rightarrow> spec_passed db userId (as_id review))"

fun spec_year_weight :: "AssessmentType \<Rightarrow> rat" where
  "spec_year_weight module_exam = 1"
| "spec_year_weight term_exam = 2"
| "spec_year_weight lesson_check = 0"
| "spec_year_weight cumulative_review = 0"

definition spec_year_entries :: "Database \<Rightarrow> string \<Rightarrow> string \<Rightarrow> TranscriptEntry list" where
  "spec_year_entries db userId yearId =
     filter (\<lambda>e. te_user_id e = userId \<and> te_year_id e = Some yearId \<and> te_passed e
                \<and> (te_assessment_type e = module_exam \<or> te_assessment_type e = term_exam))
       (transcript_entries db)"

definition spec_year_gpa :: "Database \<Rightarrow> string \<Rightarrow> string \<Rightarrow> rat option" where
  "spec_year_gpa db userId yearId =
     (let entries = spec_year_entries db userId yearId;
          total = (\<Sum>e \<leftarrow> entries. spec_year_weight (te_assessment_type e))
      in if total = 0 then None
         else Some ((\<Sum>e \<leftarrow> entries. te_score e * spec_year_weight (te_assessment_type e))
                    / total))"


text \<open>The last step of the year gate, on the GPA of the specification.\<close>

definition gpa_gate :: "rat option \<Rightarrow> AccessResult" where
  "gpa_gate gpa =
     (case gpa of
        None \<Rightarrow> \<lparr>accessible = True, reason = None\<rparr>
      | Some g \<Rightarrow>
          if g < 70 then
            \<lparr>accessible = False,
             reason = Some (''Your GPA for the previous year ('' @ number_text (Math_round g)
                            @ '') is below the required minimum of 70.'')\<rparr>
          else \<lparr>accessible = True, reason = None\<rparr>)"

section \<open>Example data\<close>





text \<open>
  Attempt histories at a clock of ten days: three attempts at days 4, 9 and 5, and a
  single attempt ten hours before.
\<close>

definition example_attempts :: "AssessmentAttempt list" where
  "example_attempts =
     [\<lparr>at_user_id = ''u'', at_assessment_id = ''m'', at_passed = False,
       at_created_at = 432000000\<rparr>,
      \<lparr>at_user_id = ''u'', at_assessment_id = ''m'', at_passed = False,
       at_created_at = 777600000\<rparr>,
      \<lparr>at_user_id = ''u'', at_assessment_id = ''m'', at_passed = False,
       at_created_at = 345600000\<rparr>]"

definition example_attempt_recent :: "AssessmentAttempt list" where
  "example_attempt_recent =
     [\<lparr>at_user_id = ''u'', at_assessment_id = ''t'', at_passed = False,
       at_created_at = 828000000\<rparr>]"

text \<open>
  A ledger with three concepts of one user (1, 3 and 5 errors) and a row of another
  user.
\<close>

definition example_ledger :: "WeakArea list" where
  "example_ledger =
     [\<lparr>wa_id = 1, wa_user_id = ''u'', wa_concept_tag = ''identification'',
       wa_error_count = 1, wa_last_tested_at = 10\<rparr>,
      \<lparr>wa_id = 2, wa_user_id = ''u'', wa_concept_tag = ''centers'',
       wa_error_count = 3, wa_last_tested_at = 20\<rparr>,
      \<lparr>wa_id = 3, wa_user_id = ''v'', wa_concept_tag = ''centers'',
       wa_error_count = 7, wa_last_tested_at = 30\<rparr>,
      \<lparr>wa_id = 4, wa_user_id = ''u'', wa_concept_tag = ''octaves'',
       wa_error_count = 5, wa_last_tested_at = 40\<rparr>]"

text \<open>
  One attempt in which ``identification'' is missed on two questions and ``essence''
  on one.
\<close>

definition example_misses :: "IncorrectConcept list" where
  "example_misses =
     [\<lparr>ic_concept_tag = ''identification'', ic_question_id = ''q1''\<rparr>,
      \<lparr>ic_concept_tag = ''essence'', ic_question_id = ''q2''\<rparr>,
      \<lparr>ic_concept_tag = ''identification'', ic_question_id = ''q3''\<rparr>]"

text \<open>
  A curriculum of two years: year 1 with terms 1 and 2, year 2 with term 3; term 1
  has a final exam, year 1 a cumulative review. User \<open>u\<close> has passed the exam of
  term 1 at the second attempt and the cumulative review, and has the example ledger;
  user \<open>v\<close> has failed the exam of term 1; user \<open>w\<close> has passed it and has no
  ledger row.
\<close>

definition example_db :: Database where
  "example_db =
     \<lparr>terms = [\<lparr>tm_id = ''t1'', tm_order = 1, tm_year_id = ''y1''\<rparr>,
                \<lparr>tm_id = ''t2'', tm_order = 2, tm_year_id = ''y1''\<rparr>,
                \<lparr>tm_id = ''t3'', tm_order = 3, tm_year_id = ''y2''\<rparr>],
      years = [\<lparr>yr_id = ''y1'', yr_order = 1\<rparr>, \<lparr>yr_id = ''y2'', yr_order = 2\<rparr>],
      assessments =
        [\<lparr>as_id = ''e1'', as_type = term_exam, as_term_id = Some ''t1'', as_year_id = None\<rparr>,
         \<lparr>as_id = ''c1'', as_type = cumulative_review, as_term_id = None,
           as_year_id = Some ''y1''\<rparr>],
      assessment_attempts =
        [\<lparr>at_user_id = ''u'', at_assessment_id = ''e1'', at_passed = False,
          at_created_at = 100\<rparr>,
         \<lparr>at_user_id = ''v'', at_assessment_id = ''e1'', at_passed = False,
          at_created_at = 150\<rparr>,
         \<lparr>at_user_id = ''u'', at_assessment_id = ''e1'', at_passed = True,
          at_created_at = 200\<rparr>,
         \<lparr>at_user_id = ''u'', at_assessment_id = ''c1'', at_passed = True,
          at_created_at = 300\<rparr>,
         \<lparr>at_user_id = ''w'', at_assessment_id = ''e1'', at_passed = True,
          at_created_at = 400\<rparr>],
      weak_areas = example_ledger,
      transcript_entries = []\<rparr>"



section \<open>Properties of the grade table and of the GPA\<close>


lemma round_2dp_near: "\<bar>round_2dp x - x\<bar> \<le> 1 / 200"
proof -
  have "\<bar>of_int (round (x * 100)) - x * 100\<bar> \<le> 1 / 2"
    by (rule of_int_round_abs_le)
  then show ?thesis
    unfolding round_2dp_def by (simp add: field_simps abs_le_iff)
qed


lemma checkRetryEligibility_returns:
  "\<exists>r. checkRetryEligibility now t prev = Inr r"
  unfolding checkRetryEligibility_def Let_def
  by (cases t) (auto split: list.splits)

lemma evaluateAssessment_returns:
  "\<exists>r. evaluateAssessment now sub t qs ca aa prev = Inr r"
proof -
  obtain e where "checkRetryEligibility now t prev = Inr e"
    using checkRetryEligibility_returns by blast
  then show ?thesis
    by (simp add: evaluateAssessment_def Let_def split: prod.splits)
qed

lemma evaluateAssessment_passed:
  assumes "evaluateAssessment now sub t qs ca aa prev = Inr r"
  shows "ar_passed r = (getPassThreshold t \<le> ar_score r)"
    and "ar_grade r = calculateGrade (ar_score r)"
  using assms
  by (auto simp: evaluateAssessment_def Let_def split: prod.splits sum.splits)

text \<open>
  C8. The letter grade of a score is A from 90 up, B on [80, 90), C on [70, 80),
  D on [60, 70) and F below 60, so every score has exactly one letter; the pass
  thresholds are 80, 75, 70 and 70 for lesson check, module exam, term exam and
  cumulative review; an assessment is returned as passed exactly when its score
  reaches the threshold of its tier, with the letter of that score, and a lesson
  quiz exactly when its score reaches the lesson-check threshold.
\<close>

theorem grade_partition_and_thresholds:
  "(calculateGrade s = GradeA) = (90 \<le> s)
   \<and> (calculateGrade s = GradeB) = (80 \<le> s \<and> s < 90)
   \<and> (calculateGrade s = GradeC) = (70 \<le> s \<and> s < 80)
   \<and> (calculateGrade s = GradeD) = (60 \<le> s \<and> s < 70)
   \<and> (calculateGrade s = GradeF) = (s < 60)
   \<and> getPassThreshold lesson_check = 80
   \<and> getPassThreshold module_exam = 75
   \<and> getPassThreshold term_exam = 70
   \<and> getPassThreshold cumulative_review = 70
   \<and> (\<exists>r. evaluateAssessment now sub t qs ca aa prev = Inr r
          \<and> ar_passed r = (getPassThreshold t \<le> ar_score r)
          \<and> ar_grade r = calculateGrade (ar_score r))
   \<and> qr_passed (evaluateQuiz sub qs ca aa)
       = (getPassThreshold lesson_check \<le> qr_score (evaluateQuiz sub qs ca aa))"
proof -
  have grades:
    "(calculateGrade s = GradeA) = (90 \<le> s)"
    "(calculateGrade s = GradeB) = (80 \<le> s \<and> s < 90)"
    "(calculateGrade s = GradeC) = (70 \<le> s \<and> s < 80)"
    "(calculateGrade s = GradeD) = (60 \<le> s \<and> s < 70)"
    "(calculateGrade s = GradeF) = (s < 60)"
    by (auto simp: calculateGrade_def)
  have thresholds:
    "getPassThreshold lesson_check = 80" "getPassThreshold module_exam = 75"
    "getPassThreshold term_exam = 70" "getPassThreshold cumulative_review = 70"
    by (simp_all add: getPassThreshold_def)
  obtain r where r: "evaluateAssessment now sub t qs ca aa prev = Inr r"
    using evaluateAssessment_returns by blast
  have assessment:
    "\<exists>r. evaluateAssessment now sub t qs ca aa prev = Inr r
         \<and> ar_passed r = (getPassThreshold t \<le> ar_score r)
         \<and> ar_grade r = calculateGrade (ar_score r)"
    using r evaluateAssessment_passed [OF r] by blast
  have quiz:
    "qr_passed (evaluateQuiz sub qs ca aa)
       = (getPassThreshold lesson_check \<le> qr_score (evaluateQuiz sub qs ca aa))"
    by (simp add: evaluateQuiz_def Let_def getPassThreshold_def PASS_THRESHOLD_def
          split: prod.splits)
  show ?thesis
    using grades thresholds assessment quiz by blast
qed

theorem grade_partition_and_thresholds_witness:
  "calculateGrade (8333 / 100) = GradeB
   \<and> (\<exists>r. evaluateAssessment 0 \<lparr>sub_answers = []\<rparr> term_exam
             [\<lparr>q_id = ''q1'', q_concept_tag = None\<rparr>] Map.empty Map.empty [] = Inr r
          \<and> ar_passed r = (getPassThreshold term_exam \<le> ar_score r)
          \<and> ar_grade r = calculateGrade (ar_score r))"
  using grade_partition_and_thresholds
    [of "8333 / 100" 0 "\<lparr>sub_answers = []\<rparr>" term_exam
        "[\<lparr>q_id = ''q1'', q_concept_tag = None\<rparr>]" Map.empty Map.empty "[]"]
  by auto






section \<open>Grading\<close>

















section \<open>Retry eligibility\<close>

lemma foldl_oldest:
  "at_created_at
     (foldl (\<lambda>oldest a. if at_created_at a < at_created_at oldest then a else oldest) x xs)
     = fold min (map at_created_at xs) (at_created_at x)"
proof (induction xs arbitrary: x)
  case Nil
  show ?case by simp
next
  case (Cons y ys)
  show ?case
    by (simp add: Cons.IH min_def)
qed

lemma foldl_latest:
  "at_created_at
     (foldl (\<lambda>latest a. if at_created_at a > at_created_at latest then a else latest) x xs)
     = fold max (map at_created_at xs) (at_created_at x)"
proof (induction xs arbitrary: x)
  case Nil
  show ?case by simp
next
  case (Cons y ys)
  show ?case
    by (simp add: Cons.IH max_def)
qed

lemma oldest_is_Min:
  "at_created_at
     (foldl (\<lambda>oldest a. if at_created_at a < at_created_at oldest then a else oldest)
        x (x # xs))
     = Min (at_created_at ` set (x # xs))"
proof -
  have "Min (set (at_created_at x # map at_created_at (x # xs)))
          = fold min (map at_created_at (x # xs)) (at_created_at x)"
    by (rule Min.set_eq_fold)
  then show ?thesis
    by (simp only: foldl_oldest) simp
qed

lemma latest_is_Max:
  "at_created_at
     (foldl (\<lambda>latest a. if at_created_at a > at_created_at latest then a else latest)
        x (x # xs))
     = Max (at_created_at ` set (x # xs))"
proof -
  have "Max (set (at_created_at x # map at_created_at (x # xs)))
          = fold max (map at_created_at (x # xs)) (at_created_at x)"
    by (rule Max.set_eq_fold)
  then show ?thesis
    by (simp only: foldl_latest) simp
qed

lemma checkRetryEligibility_general:
  assumes "MAX_ATTEMPTS t = \<lparr>limit_count = N, period_days = P\<rparr>"
    and "COOLDOWN_HOURS t = C" and "spec_policy t = (N, P, C)" and "0 < N"
  shows "checkRetryEligibility now t attempts = Inr (spec_retry now t attempts)"
proof -
  let ?recent = "filter (\<lambda>a. at_created_at a \<ge> now - ms_of_days P) attempts"
  have ps: "now - P * 24 * 60 * 60 * 1000 = now - ms_of_days P"
    by (simp add: ms_of_days_def)
  have cd: "C * 60 * 60 * 1000 = ms_of_hours C"
    by (simp add: ms_of_hours_def)
  have pe: "\<And>x. x + P * 24 * 60 * 60 * 1000 = x + ms_of_days P"
    by (simp add: ms_of_days_def)
  have pos: "(0 < ms_of_hours C) = (0 < C)"
    by (simp add: ms_of_hours_def)
  show ?thesis
  proof (cases "N \<le> length ?recent")
    case True
    then obtain x xs where r: "?recent = x # xs"
      using \<open>0 < N\<close> by (cases ?recent) auto
    show ?thesis
      unfolding checkRetryEligibility_def spec_retry_def Let_def assms(1,2,3)
      using True r
      by (simp only: AttemptLimits.simps ps cd pe list.case prod.case if_True
            oldest_is_Min)
  next
    case False
    show ?thesis
    proof (cases attempts)
      case Nil
      then show ?thesis
        unfolding checkRetryEligibility_def spec_retry_def Let_def assms(1,2,3)
        using False
        by (simp add: ps cd pe)
    next
      case (Cons y ys)
      have nonempty: "0 < length attempts" "attempts \<noteq> []"
        using Cons by simp_all
      show ?thesis
        unfolding checkRetryEligibility_def spec_retry_def Let_def assms(1,2,3)
        using False
        apply (simp only: AttemptLimits.simps ps cd pe prod.case if_False nonempty pos
                 simp_thms)
        apply (simp only: Cons list.case latest_is_Max)
        apply (simp add: conj_commute)
        done
    qed
  qed
qed

text \<open>
  C3. \<open>checkRetryEligibility\<close> returns what the algorithm of the specification gives
  with the policy lesson check (3, 1, 0), module exam (3, 7, 24), term exam (2, 14, 48)
  and cumulative review (3, 7, 24): not eligible until the oldest recent attempt plus
  \<open>P\<close> days when at least \<open>N\<close> attempts lie in the last \<open>P\<close> days; else not eligible
  until the latest attempt of the whole history plus \<open>C\<close> hours when \<open>C > 0\<close>, the
  history is not empty and that time is not reached; else eligible with no time.
\<close>

theorem checkRetryEligibility_follows_spec:
  "checkRetryEligibility now tier attempts = Inr (spec_retry now tier attempts)"
  by (cases tier) (simp_all add: checkRetryEligibility_general)

theorem checkRetryEligibility_follows_spec_witness:
  "checkRetryEligibility 864000000 module_exam example_attempts
     = Inr \<lparr>canRetry = False, nextRetryAt = Some 950400000\<rparr>
   \<and> checkRetryEligibility 864000000 term_exam example_attempt_recent
     = Inr \<lparr>canRetry = False, nextRetryAt = Some 1000800000\<rparr>"
proof -
  have a: "spec_retry 864000000 module_exam example_attempts
             = \<lparr>canRetry = False, nextRetryAt = Some 950400000\<rparr>"
    by (simp add: spec_retry_def example_attempts_def ms_of_days_def ms_of_hours_def)
  have b: "spec_retry 864000000 term_exam example_attempt_recent
             = \<lparr>canRetry = False, nextRetryAt = Some 1000800000\<rparr>"
    by (simp add: spec_retry_def example_attempt_recent_def ms_of_days_def ms_of_hours_def)
  show ?thesis
    using checkRetryEligibility_follows_spec [of 864000000 module_exam example_attempts]
      checkRetryEligibility_follows_spec [of 864000000 term_exam example_attempt_recent]
    by (simp only: a b)
qed

section \<open>Required reviews\<close>

text \<open>
  C9. The required reviews of a user are exactly the concept tags of the user's
  ledger rows with \<open>error_count \<ge> 3\<close>; the dashboard lists exactly the rows with
  \<open>error_count \<ge> 3\<close> among those it is given, which for the rows of one user are the
  same tags, and marks a listed concept as blocking progression exactly when its
  \<open>error_count\<close> is at least 5.
\<close>

theorem required_reviews_thresholds:
  "set (getRequiredReviews tbl u)
     = {wa_concept_tag w | w. w \<in> set tbl \<and> wa_user_id w = u \<and> 3 \<le> wa_error_count w}
   \<and> (item \<in> set (DashboardView_reviews weakAreas))
       = (\<exists>w \<in> set weakAreas. 3 \<le> wa_error_count w
            \<and> ri_concept_tag item = wa_concept_tag w
            \<and> ri_blocks_progression item = (5 \<le> wa_error_count w))
   \<and> map ri_concept_tag (DashboardView_reviews (filter (\<lambda>w. wa_user_id w = u) tbl))
       = getRequiredReviews tbl u"
proof -
  have a: "set (getRequiredReviews tbl u)
     = {wa_concept_tag w | w. w \<in> set tbl \<and> wa_user_id w = u \<and> 3 \<le> wa_error_count w}"
    by (auto simp: getRequiredReviews_def REVIEW_THRESHOLD_def)
  have b: "(item \<in> set (DashboardView_reviews weakAreas))
       = (\<exists>w \<in> set weakAreas. 3 \<le> wa_error_count w
            \<and> ri_concept_tag item = wa_concept_tag w
            \<and> ri_blocks_progression item = (5 \<le> wa_error_count w))"
    by (cases item) (auto simp: DashboardView_reviews_def requiredReviews_def)
  have c: "map ri_concept_tag (DashboardView_reviews (filter (\<lambda>w. wa_user_id w = u) tbl))
       = getRequiredReviews tbl u"
    by (simp add: DashboardView_reviews_def requiredReviews_def getRequiredReviews_def
          REVIEW_THRESHOLD_def comp_def conj_commute)
  show ?thesis
    using a b c by blast
qed

theorem required_reviews_thresholds_witness:
  "getRequiredReviews example_ledger ''u'' = [''centers'', ''octaves'']
   \<and> DashboardView_reviews (filter (\<lambda>w. wa_user_id w = ''u'') example_ledger)
       = [\<lparr>ri_concept_tag = ''centers'', ri_blocks_progression = False\<rparr>,
          \<lparr>ri_concept_tag = ''octaves'', ri_blocks_progression = True\<rparr>]"
proof -
  have d: "DashboardView_reviews (filter (\<lambda>w. wa_user_id w = ''u'') example_ledger)
       = [\<lparr>ri_concept_tag = ''centers'', ri_blocks_progression = False\<rparr>,
          \<lparr>ri_concept_tag = ''octaves'', ri_blocks_progression = True\<rparr>]"
    by (simp add: DashboardView_reviews_def requiredReviews_def example_ledger_def)
  have "map ri_concept_tag (DashboardView_reviews (filter (\<lambda>w. wa_user_id w = ''u'') example_ledger))
          = getRequiredReviews example_ledger ''u''"
    using required_reviews_thresholds [of example_ledger "''u''"] by blast
  then show ?thesis
    unfolding d by simp
qed

section \<open>The weak-area ledger\<close>

lemma updateWeakAreas_loop_step:
  "updateWeakAreas_loop clock u misses (tag # tags) tbl
     = updateWeakAreas_loop clock u misses tags (updateWeakAreas_step clock u misses tag tbl)"
  by (simp add: updateWeakAreas_step_def spec_miss_count_def Let_def split: option.splits)

lemma Set_add_props:
  "distinct s \<Longrightarrow> distinct (Set_add s x)" "set (Set_add s x) = insert x (set s)"
  by (auto simp: Set_add_def)

lemma foldl_Set_add:
  "distinct acc \<Longrightarrow>
     distinct (foldl Set_add acc xs) \<and> set (foldl Set_add acc xs) = set acc \<union> set xs"
  by (induction xs arbitrary: acc) (simp_all add: Set_add_props)

lemma new_Set_props: "distinct (new_Set xs)" "set (new_Set xs) = set xs"
  using foldl_Set_add [of "[]" xs] by (simp_all add: new_Set_def)

lemma filter_key_empty:
  "(u, tag) \<notin> set (map (\<lambda>w. (wa_user_id w, wa_concept_tag w)) tbl)
   \<Longrightarrow> filter (\<lambda>w. wa_user_id w = u \<and> wa_concept_tag w = tag) tbl = []"
  by (induction tbl) auto

lemma single_is_ledger_row:
  "distinct (map (\<lambda>w. (wa_user_id w, wa_concept_tag w)) tbl)
   \<Longrightarrow> single (filter (\<lambda>w. wa_user_id w = u \<and> wa_concept_tag w = tag) tbl)
         = ledger_row tbl u tag"
proof (induction tbl)
  case Nil
  show ?case by (simp add: ledger_row_def)
next
  case (Cons w tbl)
  show ?case
  proof (cases "wa_user_id w = u \<and> wa_concept_tag w = tag")
    case True
    then have "(u, tag) \<notin> set (map (\<lambda>w. (wa_user_id w, wa_concept_tag w)) tbl)"
      using Cons.prems by auto
    then have "filter (\<lambda>w. wa_user_id w = u \<and> wa_concept_tag w = tag) tbl = []"
      by (rule filter_key_empty)
    then show ?thesis using True by (simp add: ledger_row_def)
  next
    case False
    then show ?thesis using Cons by (auto simp: ledger_row_def)
  qed
qed

lemma ledger_row_SomeD:
  "ledger_row tbl u tag = Some w \<Longrightarrow> w \<in> set tbl \<and> wa_user_id w = u \<and> wa_concept_tag w = tag"
  unfolding ledger_row_def by (induction tbl) (auto split: if_splits)

lemma ledger_row_None_iff:
  "(ledger_row tbl u tag = None)
     = ((u, tag) \<notin> set (map (\<lambda>w. (wa_user_id w, wa_concept_tag w)) tbl))"
  unfolding ledger_row_def by (induction tbl) auto

lemma ledger_row_of_member:
  "distinct (map (\<lambda>w. (wa_user_id w, wa_concept_tag w)) tbl) \<Longrightarrow> w \<in> set tbl
   \<Longrightarrow> ledger_row tbl (wa_user_id w) (wa_concept_tag w) = Some w"
  unfolding ledger_row_def by (induction tbl) (auto simp: rev_image_eqI)

subsection \<open>Updating a row\<close>

lemma update_weak_area_ids: "map wa_id (update_weak_area i c ts tbl) = map wa_id tbl"
  by (induction tbl) (simp_all add: update_weak_area_def)

lemma update_weak_area_keys:
  "map (\<lambda>w. (wa_user_id w, wa_concept_tag w)) (update_weak_area i c ts tbl)
     = map (\<lambda>w. (wa_user_id w, wa_concept_tag w)) tbl"
  by (induction tbl) (simp_all add: update_weak_area_def)

lemma update_weak_area_wf: "weak_areas_wf tbl \<Longrightarrow> weak_areas_wf (update_weak_area i c ts tbl)"
  by (simp add: weak_areas_wf_def update_weak_area_ids update_weak_area_keys)

lemma update_weak_area_length: "length (update_weak_area i c ts tbl) = length tbl"
  by (simp add: update_weak_area_def)

lemma ledger_row_update:
  "ledger_row (update_weak_area i c ts tbl) v tag
     = map_option
         (\<lambda>w. if wa_id w = i then w\<lparr>wa_error_count := c, wa_last_tested_at := ts\<rparr> else w)
         (ledger_row tbl v tag)"
  unfolding ledger_row_def update_weak_area_def by (induction tbl) auto

lemma wf_same_id:
  "weak_areas_wf tbl \<Longrightarrow> w \<in> set tbl \<Longrightarrow> e \<in> set tbl \<Longrightarrow> wa_id w = wa_id e \<Longrightarrow> w = e"
  unfolding weak_areas_wf_def by (meson distinct_map inj_onD)

lemma ledger_row_update_other:
  assumes "weak_areas_wf tbl" and "ledger_row tbl u T = Some e" and "v \<noteq> u \<or> tag \<noteq> T"
  shows "ledger_row (update_weak_area (wa_id e) c ts tbl) v tag = ledger_row tbl v tag"
proof (cases "ledger_row tbl v tag")
  case None
  then show ?thesis by (simp add: ledger_row_update)
next
  case (Some w)
  have e: "e \<in> set tbl" "wa_user_id e = u" "wa_concept_tag e = T"
    using ledger_row_SomeD [OF assms(2)] by simp_all
  have w: "w \<in> set tbl" "wa_user_id w = v" "wa_concept_tag w = tag"
    using ledger_row_SomeD [OF Some] by simp_all
  have "w \<noteq> e" using e w assms(3) by auto
  then have "wa_id w \<noteq> wa_id e"
    using wf_same_id [OF assms(1) w(1) e(1)] by blast
  then show ?thesis by (simp add: ledger_row_update Some)
qed

lemma ledger_row_update_same:
  assumes "ledger_row tbl u T = Some e"
  shows "ledger_row (update_weak_area (wa_id e) c ts tbl) u T
           = Some (e\<lparr>wa_error_count := c, wa_last_tested_at := ts\<rparr>)"
  by (simp add: ledger_row_update assms)

subsection \<open>Inserting a row\<close>

lemma foldl_max_start: "(a::nat) \<le> foldl max a xs"
proof (induction xs arbitrary: a)
  case Nil
  show ?case by simp
next
  case (Cons y ys)
  have "max a y \<le> foldl max (max a y) ys" by (rule Cons.IH)
  then show ?case by simp
qed

lemma foldl_max_member: "x \<in> set xs \<Longrightarrow> x \<le> foldl max (a::nat) xs"
proof (induction xs arbitrary: a)
  case Nil
  then show ?case by simp
next
  case (Cons y ys)
  show ?case
  proof (cases "x = y")
    case True
    have "max a y \<le> foldl max (max a y) ys" by (rule foldl_max_start)
    then show ?thesis using True by simp
  next
    case False
    then have "x \<in> set ys" using Cons.prems by simp
    then show ?thesis using Cons.IH by simp
  qed
qed

lemma fresh_id_fresh: "fresh_id tbl \<notin> set (map wa_id tbl)"
proof
  assume "fresh_id tbl \<in> set (map wa_id tbl)"
  then have "fresh_id tbl \<le> foldl max 0 (map wa_id tbl)"
    by (rule foldl_max_member)
  then show False by (simp add: fresh_id_def)
qed

lemma insert_weak_area_new:
  assumes "ledger_row tbl u T = None"
  shows "insert_weak_area u T c ts tbl
           = tbl @ [\<lparr>wa_id = fresh_id tbl, wa_user_id = u, wa_concept_tag = T,
                     wa_error_count = c, wa_last_tested_at = ts\<rparr>]"
proof -
  have "\<not> list_ex (\<lambda>w. wa_user_id w = u \<and> wa_concept_tag w = T) tbl"
    using assms unfolding ledger_row_None_iff list_ex_iff by force
  then show ?thesis by (simp add: insert_weak_area_def)
qed

lemma ledger_row_append:
  "ledger_row (tbl @ [n]) v tag
     = (case ledger_row tbl v tag of
          Some w \<Rightarrow> Some w
        | None \<Rightarrow> if wa_user_id n = v \<and> wa_concept_tag n = tag then Some n else None)"
  unfolding ledger_row_def by (induction tbl) auto

lemma insert_weak_area_wf:
  assumes "weak_areas_wf tbl" and "ledger_row tbl u T = None"
  shows "weak_areas_wf (insert_weak_area u T c ts tbl)"
  using assms fresh_id_fresh [of tbl]
  by (simp add: insert_weak_area_new weak_areas_wf_def ledger_row_None_iff)

subsection \<open>One pass of the loop\<close>

lemma step_Some:
  assumes "weak_areas_wf tbl" and "ledger_row tbl u T = Some e"
  shows "updateWeakAreas_step clock u misses T tbl
           = update_weak_area (wa_id e) (wa_error_count e + spec_miss_count misses T)
               (clock T) tbl"
  using assms
  by (simp add: updateWeakAreas_step_def single_is_ledger_row weak_areas_wf_def)

lemma step_None:
  assumes "weak_areas_wf tbl" and "ledger_row tbl u T = None"
  shows "updateWeakAreas_step clock u misses T tbl
           = tbl @ [\<lparr>wa_id = fresh_id tbl, wa_user_id = u, wa_concept_tag = T,
                     wa_error_count = spec_miss_count misses T,
                     wa_last_tested_at = clock T\<rparr>]"
  using assms
  by (simp add: updateWeakAreas_step_def single_is_ledger_row weak_areas_wf_def
        insert_weak_area_new)

lemma step_wf:
  assumes "weak_areas_wf tbl"
  shows "weak_areas_wf (updateWeakAreas_step clock u misses T tbl)"
proof (cases "ledger_row tbl u T")
  case None
  then show ?thesis
    using insert_weak_area_wf [OF assms None] step_None [OF assms None]
    by (simp add: insert_weak_area_new)
next
  case (Some e)
  then show ?thesis
    using update_weak_area_wf [OF assms] step_Some [OF assms Some] by simp
qed

lemma step_ids:
  assumes "weak_areas_wf tbl"
  shows "set (map wa_id tbl) \<subseteq> set (map wa_id (updateWeakAreas_step clock u misses T tbl))"
proof (cases "ledger_row tbl u T")
  case None
  then show ?thesis using step_None [OF assms None] by auto
next
  case (Some e)
  then show ?thesis using step_Some [OF assms Some] by (simp add: update_weak_area_ids)
qed

lemma step_other:
  assumes "weak_areas_wf tbl" and "v \<noteq> u \<or> tag \<noteq> T"
  shows "ledger_row (updateWeakAreas_step clock u misses T tbl) v tag = ledger_row tbl v tag"
proof (cases "ledger_row tbl u T")
  case None
  then show ?thesis
    using step_None [OF assms(1) None] assms(2)
    by (auto simp: ledger_row_append split: option.splits)
next
  case (Some e)
  then show ?thesis
    using step_Some [OF assms(1) Some] ledger_row_update_other [OF assms(1) Some assms(2)]
    by simp
qed

lemma step_same_Some:
  assumes "weak_areas_wf tbl" and "ledger_row tbl u T = Some e"
  shows "ledger_row (updateWeakAreas_step clock u misses T tbl) u T
           = Some (e\<lparr>wa_error_count := wa_error_count e + spec_miss_count misses T,
                     wa_last_tested_at := clock T\<rparr>)"
    and "length (updateWeakAreas_step clock u misses T tbl) = length tbl"
  using step_Some [OF assms] ledger_row_update_same [OF assms(2)]
  by (simp_all add: update_weak_area_length)

lemma step_same_None:
  assumes "weak_areas_wf tbl" and "ledger_row tbl u T = None"
  shows "ledger_row (updateWeakAreas_step clock u misses T tbl) u T
           = Some \<lparr>wa_id = fresh_id tbl, wa_user_id = u, wa_concept_tag = T,
                   wa_error_count = spec_miss_count misses T, wa_last_tested_at = clock T\<rparr>"
    and "length (updateWeakAreas_step clock u misses T tbl) = Suc (length tbl)"
  using step_None [OF assms] assms(2)
  by (simp_all add: ledger_row_append)

subsection \<open>The loop\<close>

lemma loop_wf:
  "weak_areas_wf tbl \<Longrightarrow> weak_areas_wf (updateWeakAreas_loop clock u misses tags tbl)"
proof (induction tags arbitrary: tbl)
  case Nil
  then show ?case by simp
next
  case (Cons T tags)
  have "weak_areas_wf (updateWeakAreas_step clock u misses T tbl)"
    using Cons.prems by (rule step_wf)
  then show ?case
    unfolding updateWeakAreas_loop_step by (rule Cons.IH)
qed

lemma loop_ids:
  "weak_areas_wf tbl \<Longrightarrow>
     set (map wa_id tbl) \<subseteq> set (map wa_id (updateWeakAreas_loop clock u misses tags tbl))"
proof (induction tags arbitrary: tbl)
  case Nil
  then show ?case by simp
next
  case (Cons T tags)
  let ?t1 = "updateWeakAreas_step clock u misses T tbl"
  have "set (map wa_id tbl) \<subseteq> set (map wa_id ?t1)"
    using Cons.prems by (rule step_ids)
  moreover have "set (map wa_id ?t1)
                   \<subseteq> set (map wa_id (updateWeakAreas_loop clock u misses tags ?t1))"
    using step_wf [OF Cons.prems] by (rule Cons.IH)
  ultimately show ?case
    unfolding updateWeakAreas_loop_step by blast
qed

lemma loop_other:
  "weak_areas_wf tbl \<Longrightarrow> v \<noteq> u \<or> tag \<notin> set tags \<Longrightarrow>
     ledger_row (updateWeakAreas_loop clock u misses tags tbl) v tag = ledger_row tbl v tag"
proof (induction tags arbitrary: tbl)
  case Nil
  then show ?case by simp
next
  case (Cons T tags)
  let ?t1 = "updateWeakAreas_step clock u misses T tbl"
  have a: "v \<noteq> u \<or> tag \<noteq> T" and b: "v \<noteq> u \<or> tag \<notin> set tags"
    using Cons.prems(2) by auto
  have "ledger_row (updateWeakAreas_loop clock u misses tags ?t1) v tag = ledger_row ?t1 v tag"
    using step_wf [OF Cons.prems(1)] b by (rule Cons.IH)
  also have "\<dots> = ledger_row tbl v tag"
    using Cons.prems(1) a by (rule step_other)
  finally show ?case
    unfolding updateWeakAreas_loop_step .
qed

lemma loop_existing:
  "weak_areas_wf tbl \<Longrightarrow> distinct tags \<Longrightarrow> tag \<in> set tags \<Longrightarrow> ledger_row tbl u tag = Some e
   \<Longrightarrow> ledger_row (updateWeakAreas_loop clock u misses tags tbl) u tag
         = Some (e\<lparr>wa_error_count := wa_error_count e + spec_miss_count misses tag,
                   wa_last_tested_at := clock tag\<rparr>)"
proof (induction tags arbitrary: tbl)
  case Nil
  then show ?case by simp
next
  case (Cons T tags)
  let ?t1 = "updateWeakAreas_step clock u misses T tbl"
  have wf1: "weak_areas_wf ?t1" using Cons.prems(1) by (rule step_wf)
  show ?case
  proof (cases "tag = T")
    case True
    then have "tag \<notin> set tags" using Cons.prems(2) by simp
    then have "ledger_row (updateWeakAreas_loop clock u misses tags ?t1) u tag
                 = ledger_row ?t1 u tag"
      using loop_other [OF wf1] by blast
    then show ?thesis
      unfolding updateWeakAreas_loop_step
      using step_same_Some(1) [OF Cons.prems(1)] Cons.prems(4) True by simp
  next
    case False
    then have mem: "tag \<in> set tags" using Cons.prems(3) by simp
    have "ledger_row ?t1 u tag = Some e"
      using step_other [OF Cons.prems(1)] False Cons.prems(4) by simp
    then show ?thesis
      unfolding updateWeakAreas_loop_step
      using Cons.IH [OF wf1 _ mem] Cons.prems(2) by simp
  qed
qed

lemma loop_new:
  "weak_areas_wf tbl \<Longrightarrow> distinct tags \<Longrightarrow> tag \<in> set tags \<Longrightarrow> ledger_row tbl u tag = None
   \<Longrightarrow> \<exists>i. i \<notin> set (map wa_id tbl)
         \<and> ledger_row (updateWeakAreas_loop clock u misses tags tbl) u tag
             = Some \<lparr>wa_id = i, wa_user_id = u, wa_concept_tag = tag,
                     wa_error_count = spec_miss_count misses tag,
                     wa_last_tested_at = clock tag\<rparr>"
proof (induction tags arbitrary: tbl)
  case Nil
  then show ?case by simp
next
  case (Cons T tags)
  let ?t1 = "updateWeakAreas_step clock u misses T tbl"
  have wf1: "weak_areas_wf ?t1" using Cons.prems(1) by (rule step_wf)
  show ?case
  proof (cases "tag = T")
    case True
    then have "tag \<notin> set tags" using Cons.prems(2) by simp
    then have "ledger_row (updateWeakAreas_loop clock u misses tags ?t1) u tag
                 = ledger_row ?t1 u tag"
      using loop_other [OF wf1] by blast
    then have "ledger_row (updateWeakAreas_loop clock u misses (T # tags) tbl) u tag
                 = Some \<lparr>wa_id = fresh_id tbl, wa_user_id = u, wa_concept_tag = tag,
                     wa_error_count = spec_miss_count misses tag,
                     wa_last_tested_at = clock tag\<rparr>"
      unfolding updateWeakAreas_loop_step
      using step_same_None(1) [OF Cons.prems(1)] Cons.prems(4) True by simp
    then show ?thesis
      using fresh_id_fresh [of tbl] by blast
  next
    case False
    then have mem: "tag \<in> set tags" using Cons.prems(3) by simp
    have "ledger_row ?t1 u tag = None"
      using step_other [OF Cons.prems(1)] False Cons.prems(4) by simp
    then obtain i where i: "i \<notin> set (map wa_id ?t1)"
      "ledger_row (updateWeakAreas_loop clock u misses tags ?t1) u tag
             = Some \<lparr>wa_id = i, wa_user_id = u, wa_concept_tag = tag,
                     wa_error_count = spec_miss_count misses tag,
                     wa_last_tested_at = clock tag\<rparr>"
      using Cons.IH [OF wf1 _ mem] Cons.prems(2) by auto
    have "i \<notin> set (map wa_id tbl)"
      using i(1) step_ids [OF Cons.prems(1)] by blast
    then show ?thesis
      unfolding updateWeakAreas_loop_step using i(2) by blast
  qed
qed

lemma loop_length:
  "weak_areas_wf tbl \<Longrightarrow> distinct tags \<Longrightarrow>
     length (updateWeakAreas_loop clock u misses tags tbl)
       = length tbl + length (filter (\<lambda>tag. ledger_row tbl u tag = None) tags)"
proof (induction tags arbitrary: tbl)
  case Nil
  then show ?case by simp
next
  case (Cons T tags)
  let ?t1 = "updateWeakAreas_step clock u misses T tbl"
  have wf1: "weak_areas_wf ?t1" using Cons.prems(1) by (rule step_wf)
  have same: "filter (\<lambda>tag. ledger_row ?t1 u tag = None) tags
                = filter (\<lambda>tag. ledger_row tbl u tag = None) tags"
  proof (rule filter_cong [OF refl])
    fix tag assume "tag \<in> set tags"
    then have "tag \<noteq> T" using Cons.prems(2) by auto
    then show "(ledger_row ?t1 u tag = None) = (ledger_row tbl u tag = None)"
      using step_other [OF Cons.prems(1)] by simp
  qed
  have ih: "length (updateWeakAreas_loop clock u misses tags ?t1)
              = length ?t1 + length (filter (\<lambda>tag. ledger_row tbl u tag = None) tags)"
    using Cons.IH [OF wf1] Cons.prems(2) same by simp
  show ?case
  proof (cases "ledger_row tbl u T")
    case None
    then show ?thesis
      unfolding updateWeakAreas_loop_step
      using ih step_same_None(2) [OF Cons.prems(1) None] by simp
  next
    case (Some e)
    then show ?thesis
      unfolding updateWeakAreas_loop_step
      using ih step_same_Some(2) [OF Cons.prems(1) Some] by simp
  qed
qed

subsection \<open>The update as a whole\<close>

lemma spec_miss_count_pos:
  "tag \<in> set (map ic_concept_tag misses) \<Longrightarrow> 1 \<le> spec_miss_count misses tag"
proof -
  assume "tag \<in> set (map ic_concept_tag misses)"
  then have "filter (\<lambda>c. ic_concept_tag c = tag) misses \<noteq> []"
    by (auto simp: filter_empty_conv)
  then have "0 < length (filter (\<lambda>c. ic_concept_tag c = tag) misses)"
    by simp
  then show ?thesis unfolding spec_miss_count_def by linarith
qed

lemma updateWeakAreas_as_loop:
  "updateWeakAreas clock u misses tbl
     = updateWeakAreas_loop clock u misses (new_Set (map ic_concept_tag misses)) tbl"
  by (cases misses) (simp_all add: updateWeakAreas_def new_Set_def)

text \<open>
  C7. On a table that satisfies the schema's constraints, \<open>updateWeakAreas\<close> leaves a
  table that satisfies them, in which, for every concept tag of the misses, the user's
  existing row has kept its identity and has its \<open>error_count\<close> raised by the number of
  misses of that tag and its \<open>last_tested_at\<close> set to the clock, and a tag without a row
  has got one new row whose \<open>error_count\<close> is that number; the rows of other users and
  of other tags are as before; the table has grown by one row per tag that had none;
  every former row is still there with a count that is not smaller; and the number of
  misses of a tag in the list is at least 1.
\<close>

theorem updateWeakAreas_increments:
  assumes "weak_areas_wf tbl"
  shows "weak_areas_wf (updateWeakAreas clock u misses tbl)
   \<and> (\<forall>tag \<in> set (map ic_concept_tag misses).
        1 \<le> spec_miss_count misses tag
        \<and> (case ledger_row tbl u tag of
             Some e \<Rightarrow>
               ledger_row (updateWeakAreas clock u misses tbl) u tag
                 = Some (e\<lparr>wa_error_count := wa_error_count e + spec_miss_count misses tag,
                           wa_last_tested_at := clock tag\<rparr>)
           | None \<Rightarrow>
               (\<exists>i. i \<notin> set (map wa_id tbl)
                  \<and> ledger_row (updateWeakAreas clock u misses tbl) u tag
                      = Some \<lparr>wa_id = i, wa_user_id = u, wa_concept_tag = tag,
                              wa_error_count = spec_miss_count misses tag,
                              wa_last_tested_at = clock tag\<rparr>)))
   \<and> (\<forall>v tag. v \<noteq> u \<or> tag \<notin> set (map ic_concept_tag misses) \<longrightarrow>
        ledger_row (updateWeakAreas clock u misses tbl) v tag = ledger_row tbl v tag)
   \<and> length (updateWeakAreas clock u misses tbl)
       = length tbl
         + card {tag \<in> set (map ic_concept_tag misses). ledger_row tbl u tag = None}
   \<and> (\<forall>w \<in> set tbl. \<exists>w' \<in> set (updateWeakAreas clock u misses tbl).
        wa_id w' = wa_id w \<and> wa_user_id w' = wa_user_id w
        \<and> wa_concept_tag w' = wa_concept_tag w
        \<and> wa_error_count w \<le> wa_error_count w')"
proof -
  let ?tags = "new_Set (map ic_concept_tag misses)"
  let ?tbl' = "updateWeakAreas clock u misses tbl"
  have tags: "distinct ?tags" "set ?tags = set (map ic_concept_tag misses)"
    by (rule new_Set_props)+
  have loop: "?tbl' = updateWeakAreas_loop clock u misses ?tags tbl"
    by (rule updateWeakAreas_as_loop)
  have wf': "weak_areas_wf ?tbl'"
    unfolding loop using assms by (rule loop_wf)
  have touched: "\<forall>tag \<in> set (map ic_concept_tag misses).
        1 \<le> spec_miss_count misses tag
        \<and> (case ledger_row tbl u tag of
             Some e \<Rightarrow>
               ledger_row ?tbl' u tag
                 = Some (e\<lparr>wa_error_count := wa_error_count e + spec_miss_count misses tag,
                           wa_last_tested_at := clock tag\<rparr>)
           | None \<Rightarrow>
               (\<exists>i. i \<notin> set (map wa_id tbl)
                  \<and> ledger_row ?tbl' u tag
                      = Some \<lparr>wa_id = i, wa_user_id = u, wa_concept_tag = tag,
                              wa_error_count = spec_miss_count misses tag,
                              wa_last_tested_at = clock tag\<rparr>))"
  proof
    fix tag assume t: "tag \<in> set (map ic_concept_tag misses)"
    then have mem: "tag \<in> set ?tags" using tags(2) by simp
    have pos: "1 \<le> spec_miss_count misses tag"
      using t by (rule spec_miss_count_pos)
    show "1 \<le> spec_miss_count misses tag
        \<and> (case ledger_row tbl u tag of
             Some e \<Rightarrow>
               ledger_row ?tbl' u tag
                 = Some (e\<lparr>wa_error_count := wa_error_count e + spec_miss_count misses tag,
                           wa_last_tested_at := clock tag\<rparr>)
           | None \<Rightarrow>
               (\<exists>i. i \<notin> set (map wa_id tbl)
                  \<and> ledger_row ?tbl' u tag
                      = Some \<lparr>wa_id = i, wa_user_id = u, wa_concept_tag = tag,
                              wa_error_count = spec_miss_count misses tag,
                              wa_last_tested_at = clock tag\<rparr>))"
    proof (cases "ledger_row tbl u tag")
      case None
      show ?thesis
        unfolding loop using pos None loop_new [OF assms tags(1) mem None] by simp
    next
      case (Some e)
      show ?thesis
        unfolding loop using pos Some loop_existing [OF assms tags(1) mem Some] by simp
    qed
  qed
  have others: "\<forall>v tag. v \<noteq> u \<or> tag \<notin> set (map ic_concept_tag misses) \<longrightarrow>
        ledger_row ?tbl' v tag = ledger_row tbl v tag"
    unfolding loop using loop_other [OF assms] tags(2) by simp
  have "length (filter (\<lambda>tag. ledger_row tbl u tag = None) ?tags)
          = card {tag \<in> set (map ic_concept_tag misses). ledger_row tbl u tag = None}"
  proof -
    have "distinct (filter (\<lambda>tag. ledger_row tbl u tag = None) ?tags)"
      using tags(1) by simp
    then have "length (filter (\<lambda>tag. ledger_row tbl u tag = None) ?tags)
                 = card (set (filter (\<lambda>tag. ledger_row tbl u tag = None) ?tags))"
      by (rule distinct_card [symmetric])
    also have "set (filter (\<lambda>tag. ledger_row tbl u tag = None) ?tags)
                 = {tag \<in> set (map ic_concept_tag misses). ledger_row tbl u tag = None}"
      using tags(2) by auto
    finally show ?thesis .
  qed
  then have len: "length ?tbl' = length tbl
         + card {tag \<in> set (map ic_concept_tag misses). ledger_row tbl u tag = None}"
    unfolding loop using loop_length [OF assms tags(1)] by simp
  have mono: "\<forall>w \<in> set tbl. \<exists>w' \<in> set ?tbl'.
        wa_id w' = wa_id w \<and> wa_user_id w' = wa_user_id w
        \<and> wa_concept_tag w' = wa_concept_tag w
        \<and> wa_error_count w \<le> wa_error_count w'"
  proof
    fix w assume w: "w \<in> set tbl"
    have row: "ledger_row tbl (wa_user_id w) (wa_concept_tag w) = Some w"
      using assms w by (simp add: weak_areas_wf_def ledger_row_of_member)
    show "\<exists>w' \<in> set ?tbl'.
        wa_id w' = wa_id w \<and> wa_user_id w' = wa_user_id w
        \<and> wa_concept_tag w' = wa_concept_tag w
        \<and> wa_error_count w \<le> wa_error_count w'"
    proof (cases "wa_user_id w = u \<and> wa_concept_tag w \<in> set (map ic_concept_tag misses)")
      case True
      let ?w' = "w\<lparr>wa_error_count := wa_error_count w
                       + spec_miss_count misses (wa_concept_tag w),
                    wa_last_tested_at := clock (wa_concept_tag w)\<rparr>"
      have "ledger_row ?tbl' u (wa_concept_tag w) = Some ?w'"
        using touched True row by force
      then have "?w' \<in> set ?tbl'"
        using ledger_row_SomeD by blast
      moreover have "wa_error_count w \<le> wa_error_count ?w'"
        using spec_miss_count_pos [of "wa_concept_tag w" misses] True by simp
      ultimately show ?thesis
        by (intro bexI [of _ ?w']) simp_all
    next
      case False
      then have "ledger_row ?tbl' (wa_user_id w) (wa_concept_tag w) = Some w"
        using others row by auto
      then have "w \<in> set ?tbl'"
        using ledger_row_SomeD by blast
      then show ?thesis
        by (intro bexI [of _ w]) simp_all
    qed
  qed
  show ?thesis
    using wf' touched others len mono by blast
qed

theorem updateWeakAreas_increments_witness:
  "weak_areas_wf example_ledger
   \<and> ledger_row (updateWeakAreas (\<lambda>tag. 99) ''u'' example_misses example_ledger)
       ''u'' ''identification''
       = Some \<lparr>wa_id = 1, wa_user_id = ''u'', wa_concept_tag = ''identification'',
               wa_error_count = 3, wa_last_tested_at = 99\<rparr>
   \<and> ledger_row (updateWeakAreas (\<lambda>tag. 99) ''u'' example_misses example_ledger)
       ''u'' ''centers''
       = Some \<lparr>wa_id = 2, wa_user_id = ''u'', wa_concept_tag = ''centers'',
               wa_error_count = 3, wa_last_tested_at = 20\<rparr>"
proof -
  have wf: "weak_areas_wf example_ledger"
    by (simp add: weak_areas_wf_def example_ledger_def)
  note th = updateWeakAreas_increments [OF wf, of "\<lambda>tag. 99" "''u''" example_misses]
  have mem: "''identification'' \<in> set (map ic_concept_tag example_misses)"
    and nonmem: "''centers'' \<notin> set (map ic_concept_tag example_misses)"
    by (simp_all add: example_misses_def)
  have n: "spec_miss_count example_misses ''identification'' = 2"
    by (simp add: spec_miss_count_def example_misses_def)
  have row: "ledger_row example_ledger ''u'' ''identification''
               = Some \<lparr>wa_id = 1, wa_user_id = ''u'', wa_concept_tag = ''identification'',
                       wa_error_count = 1, wa_last_tested_at = 10\<rparr>"
    and row2: "ledger_row example_ledger ''u'' ''centers''
               = Some \<lparr>wa_id = 2, wa_user_id = ''u'', wa_concept_tag = ''centers'',
                       wa_error_count = 3, wa_last_tested_at = 20\<rparr>"
    by (simp_all add: ledger_row_def example_ledger_def)
  have a: "ledger_row (updateWeakAreas (\<lambda>tag. 99) ''u'' example_misses example_ledger)
       ''u'' ''identification''
       = Some \<lparr>wa_id = 1, wa_user_id = ''u'', wa_concept_tag = ''identification'',
               wa_error_count = 3, wa_last_tested_at = 99\<rparr>"
    using th mem n row by force
  have b: "ledger_row (updateWeakAreas (\<lambda>tag. 99) ''u'' example_misses example_ledger)
       ''u'' ''centers''
       = Some \<lparr>wa_id = 2, wa_user_id = ''u'', wa_concept_tag = ''centers'',
               wa_error_count = 3, wa_last_tested_at = 20\<rparr>"
    using th nonmem row2 by force
  show ?thesis
    using wf a b by simp
qed

section \<open>The term gate\<close>

lemma single_take_1: "(single (take 1 xs) = None) = (xs = [])"
  by (cases xs) simp_all

lemma select_passing_attempt_iff:
  "(select_passing_attempt db userId assessmentId = None)
     = (\<not> spec_passed db userId assessmentId)"
  unfolding select_passing_attempt_def spec_passed_def single_take_1
  by (auto simp: list_ex_iff filter_empty_conv)






text \<open>
  The guard before the exam check: a term whose preceding term is not found (no term,
  or several, of the order below) is accessible, whatever the ledger holds.
\<close>

lemma canAccessTerm_no_previous_term:
  assumes "single (filter (\<lambda>t. tm_id t = termId) (terms db)) = Some t"
    and "single (filter (\<lambda>p. tm_order p = tm_order t - 1) (terms db)) = None"
  shows "canAccessTerm db userId termId = \<lparr>accessible = True, reason = None\<rparr>"
  using assms by (simp add: canAccessTerm_def)

section \<open>The year gate\<close>

lemma canAccessYear_terms_result:
  "canAccessYear_terms db userId prevTerms =
     (if list_all
           (\<lambda>t. case select_term_exam db (tm_id t) of
                   None \<Rightarrow> True
                 | Some exam \<Rightarrow> spec_passed db userId (as_id exam)) prevTerms
      then None
      else Some \<lparr>accessible = False,
                 reason = Some ''All term examinations in the previous year must be passed before advancing.''\<rparr>)"
proof (induction prevTerms)
  case Nil
  show ?case by simp
next
  case (Cons t ts)
  show ?case
  proof (cases "select_term_exam db (tm_id t)")
    case None
    then show ?thesis using Cons.IH by simp
  next
    case (Some exam)
    show ?thesis
    proof (cases "select_passing_attempt db userId (as_id exam)")
      case None
      then have "\<not> spec_passed db userId (as_id exam)"
        by (simp add: select_passing_attempt_iff)
      then show ?thesis using Some None by simp
    next
      case (Some a)
      then have "spec_passed db userId (as_id exam)"
        using select_passing_attempt_iff [of db userId "as_id exam"] by simp
      then show ?thesis using \<open>select_term_exam db (tm_id t) = Some exam\<close> Some Cons.IH by simp
    qed
  qed
qed

lemma canAccessYear_gpa_sums:
  "canAccessYear_gpa es (a, b) =
     (a + (\<Sum>e \<leftarrow> es. te_score e * (if te_assessment_type e = term_exam then 2 else 1)),
      b + (\<Sum>e \<leftarrow> es. (if te_assessment_type e = term_exam then 2 else 1)))"
  by (induction es arbitrary: a b) (simp_all add: Let_def)

lemma year_entries_sums:
  "(\<Sum>e \<leftarrow> spec_year_entries db u y.
      te_score e * (if te_assessment_type e = term_exam then 2 else 1))
     = (\<Sum>e \<leftarrow> spec_year_entries db u y. te_score e * spec_year_weight (te_assessment_type e))"
  "(\<Sum>e \<leftarrow> spec_year_entries db u y. (if te_assessment_type e = term_exam then 2 else 1))
     = (\<Sum>e \<leftarrow> spec_year_entries db u y. spec_year_weight (te_assessment_type e))"
proof -
  have w: "\<And>e. e \<in> set (spec_year_entries db u y)
             \<Longrightarrow> (if te_assessment_type e = term_exam then 2 else 1)
                   = spec_year_weight (te_assessment_type e)"
    by (auto simp: spec_year_entries_def)
  show "(\<Sum>e \<leftarrow> spec_year_entries db u y.
      te_score e * (if te_assessment_type e = term_exam then 2 else 1))
     = (\<Sum>e \<leftarrow> spec_year_entries db u y. te_score e * spec_year_weight (te_assessment_type e))"
    by (rule arg_cong [where f = sum_list], rule map_cong [OF refl]) (simp add: w)
  show "(\<Sum>e \<leftarrow> spec_year_entries db u y. (if te_assessment_type e = term_exam then 2 else 1))
     = (\<Sum>e \<leftarrow> spec_year_entries db u y. spec_year_weight (te_assessment_type e))"
    by (rule arg_cong [where f = sum_list], rule map_cong [OF refl]) (simp add: w)
qed

lemma year_weight_total:
  "rat_of_nat (length (spec_year_entries db u y))
     \<le> (\<Sum>e \<leftarrow> spec_year_entries db u y. spec_year_weight (te_assessment_type e))"
proof -
  have gen: "rat_of_nat (length es) \<le> (\<Sum>e \<leftarrow> es. spec_year_weight (te_assessment_type e))"
    if "\<forall>e \<in> set es. te_assessment_type e = module_exam \<or> te_assessment_type e = term_exam"
    for es
    using that by (induction es) auto
  have "\<forall>e \<in> set (spec_year_entries db u y).
          te_assessment_type e = module_exam \<or> te_assessment_type e = term_exam"
    by (simp add: spec_year_entries_def)
  then show ?thesis by (rule gen)
qed

lemma year_total_zero_iff:
  "((\<Sum>e \<leftarrow> spec_year_entries db u y. spec_year_weight (te_assessment_type e)) = 0)
     = (spec_year_entries db u y = [])"
proof
  assume z: "(\<Sum>e \<leftarrow> spec_year_entries db u y. spec_year_weight (te_assessment_type e)) = 0"
  have "rat_of_nat (length (spec_year_entries db u y)) \<le> 0"
    using year_weight_total [of db u y] z by simp
  then show "spec_year_entries db u y = []" by simp
next
  assume "spec_year_entries db u y = []"
  then show "(\<Sum>e \<leftarrow> spec_year_entries db u y. spec_year_weight (te_assessment_type e)) = 0"
    by simp
qed

lemma year_entries_query:
  "filter (\<lambda>e. te_user_id e = userId \<and> te_year_id e = Some yearId \<and> te_passed e
              \<and> te_assessment_type e \<in> {module_exam, term_exam}) (transcript_entries db)
     = spec_year_entries db userId yearId"
  by (simp add: spec_year_entries_def)

lemma canAccessYear_gpa_part:
  "(let transcriptEntries = spec_year_entries db u y
    in if length transcriptEntries > 0 then
         (case canAccessYear_gpa transcriptEntries (0, 0) of
            (weightedSum, totalWeight) \<Rightarrow>
              (let yearGPA = (if totalWeight > 0 then weightedSum / totalWeight else 0)
               in if yearGPA < 70 then
                    \<lparr>accessible = False,
                     reason = Some (''Your GPA for the previous year ('' @ number_text (Math_round yearGPA) @ '') is below the required minimum of 70.'')\<rparr>
                  else \<lparr>accessible = True, reason = None\<rparr>))
       else \<lparr>accessible = True, reason = None\<rparr>)
   = gpa_gate (spec_year_gpa db u y)"
proof (cases "spec_year_entries db u y = []")
  case True
  then show ?thesis
    by (simp add: gpa_gate_def spec_year_gpa_def)
next
  case False
  let ?tw = "\<Sum>e \<leftarrow> spec_year_entries db u y. spec_year_weight (te_assessment_type e)"
  have nz: "?tw \<noteq> 0" using False year_total_zero_iff [of db u y] by simp
  have "rat_of_nat (length (spec_year_entries db u y)) \<le> ?tw"
    by (rule year_weight_total)
  moreover have "0 \<le> rat_of_nat (length (spec_year_entries db u y))" by simp
  ultimately have pos: "0 < ?tw" using nz by linarith
  show ?thesis
    using False nz pos
    by (simp add: gpa_gate_def spec_year_gpa_def canAccessYear_gpa_sums year_entries_sums
          Let_def)
qed

lemma canAccessYear_later_year:
  assumes "single (filter (\<lambda>y. yr_id y = yearId) (years db)) = Some y"
    and "yr_order y \<noteq> 1"
    and "single (filter (\<lambda>p. yr_order p = yr_order y - 1) (years db)) = Some prevYear"
  shows "canAccessYear db userId yearId =
     (if filter (\<lambda>t. tm_year_id t = yr_id prevYear) (terms db) = [] then
        \<lparr>accessible = True, reason = None\<rparr>
      else if \<not> spec_term_exams_passed db userId (yr_id prevYear) then
        \<lparr>accessible = False,
         reason = Some ''All term examinations in the previous year must be passed before advancing.''\<rparr>
      else if \<not> spec_cumulative_review_passed db userId (yr_id prevYear) then
        \<lparr>accessible = False,
         reason = Some ''The cumulative review for the previous year must be passed before advancing.''\<rparr>
      else gpa_gate (spec_year_gpa db userId (yr_id prevYear)))"
proof -
  let ?terms = "filter (\<lambda>t. tm_year_id t = yr_id prevYear) (terms db)"
  have review:
    "(case select_cumulative_review db (yr_id prevYear) of
        None \<Rightarrow> False
      | Some cumulativeReview \<Rightarrow>
          select_passing_attempt db userId (as_id cumulativeReview) = None)
     = (\<not> spec_cumulative_review_passed db userId (yr_id prevYear))"
    by (simp add: spec_cumulative_review_passed_def select_passing_attempt_iff
          split: option.splits)
  have exams:
    "canAccessYear_terms db userId ?terms =
       (if spec_term_exams_passed db userId (yr_id prevYear) then None
        else Some \<lparr>accessible = False,
                   reason = Some ''All term examinations in the previous year must be passed before advancing.''\<rparr>)"
    unfolding spec_term_exams_passed_def by (rule canAccessYear_terms_result)
  have gpa: "(let transcriptEntries = spec_year_entries db userId (yr_id prevYear)
    in if length transcriptEntries > 0 then
         (case canAccessYear_gpa transcriptEntries (0, 0) of
            (weightedSum, totalWeight) \<Rightarrow>
              (let yearGPA = (if totalWeight > 0 then weightedSum / totalWeight else 0)
               in if yearGPA < 70 then
                    \<lparr>accessible = False,
                     reason = Some (''Your GPA for the previous year ('' @ number_text (Math_round yearGPA) @ '') is below the required minimum of 70.'')\<rparr>
                  else \<lparr>accessible = True, reason = None\<rparr>))
       else \<lparr>accessible = True, reason = None\<rparr>)
   = gpa_gate (spec_year_gpa db userId (yr_id prevYear))"
    by (rule canAccessYear_gpa_part)
  show ?thesis
    unfolding canAccessYear_def
    apply (simp only: assms option.case if_False)
    apply (subst Let_def)
    apply (simp only: exams review year_entries_query gpa length_0_conv)
    apply (simp split: if_splits)
    done
qed




text \<open>
  C10. When the user has no passed module-exam or term-exam transcript entry of the
  previous year, and the term exams and the cumulative review (where defined) of the
  previous year are passed, the previous year has no GPA and \<open>canAccessYear\<close> grants
  access.
\<close>

theorem canAccessYear_null_gpa:
  assumes "single (filter (\<lambda>y. yr_id y = yearId) (years db)) = Some y"
    and "single (filter (\<lambda>p. yr_order p = yr_order y - 1) (years db)) = Some prevYear"
    and "spec_year_entries db userId (yr_id prevYear) = []"
    and "spec_term_exams_passed db userId (yr_id prevYear)"
    and "spec_cumulative_review_passed db userId (yr_id prevYear)"
  shows "spec_year_gpa db userId (yr_id prevYear) = None
       \<and> canAccessYear db userId yearId = \<lparr>accessible = True, reason = None\<rparr>"
proof -
  have gpa: "spec_year_gpa db userId (yr_id prevYear) = None"
    using assms(3) by (simp add: spec_year_gpa_def)
  have "canAccessYear db userId yearId = \<lparr>accessible = True, reason = None\<rparr>"
  proof (cases "yr_order y = 1")
    case True
    then show ?thesis using assms(1) by (simp add: canAccessYear_def)
  next
    case False
    show ?thesis
      unfolding canAccessYear_later_year [OF assms(1) False assms(2)]
      using assms(4,5) gpa by (simp add: gpa_gate_def)
  qed
  then show ?thesis using gpa by simp
qed

theorem canAccessYear_null_gpa_witness:
  "single (filter (\<lambda>y. yr_id y = ''y2'') (years example_db))
     = Some \<lparr>yr_id = ''y2'', yr_order = 2\<rparr>
   \<and> single (filter (\<lambda>p. yr_order p = 1) (years example_db))
     = Some \<lparr>yr_id = ''y1'', yr_order = 1\<rparr>
   \<and> spec_year_entries example_db ''u'' ''y1'' = []
   \<and> spec_term_exams_passed example_db ''u'' ''y1''
   \<and> spec_cumulative_review_passed example_db ''u'' ''y1''
   \<and> canAccessYear example_db ''u'' ''y2'' = \<lparr>accessible = True, reason = None\<rparr>"
proof -
  let ?y2 = "\<lparr>yr_id = ''y2'', yr_order = 2\<rparr>"
  let ?y1 = "\<lparr>yr_id = ''y1'', yr_order = 1\<rparr>"
  have found: "single (filter (\<lambda>y. yr_id y = ''y2'') (years example_db)) = Some ?y2"
    by (simp add: example_db_def)
  have prev: "single (filter (\<lambda>p. yr_order p = yr_order ?y2 - 1) (years example_db))
                = Some ?y1"
    by (simp add: example_db_def)
  have entries: "spec_year_entries example_db ''u'' (yr_id ?y1) = []"
    by (simp add: spec_year_entries_def example_db_def)
  have exams: "spec_term_exams_passed example_db ''u'' (yr_id ?y1)"
    by (simp add: spec_term_exams_passed_def select_term_exam_def spec_passed_def
          example_db_def)
  have review: "spec_cumulative_review_passed example_db ''u'' (yr_id ?y1)"
    by (simp add: spec_cumulative_review_passed_def select_cumulative_review_def
          spec_passed_def example_db_def)
  show ?thesis
    using canAccessYear_null_gpa [OF found prev entries exams review]
      found prev entries exams review
    by simp
qed

end
